theory Spec2Isabelle
  imports Complex_Main
begin

section \<open>The trajectory recorder of \<open>App.tsx\<close>\<close>

text \<open>
  The component \<open>App\<close> keeps its data in React state cells and refs and changes them from
  event handlers: the key handler, the countdown timeout, the pointer listener, the 60 Hz
  sampler interval, the image loader, the two bound inputs and the resize listener.  The
  embedding below is a record of those cells and one function per handler; an event of the
  host becomes a constructor of \<open>event\<close>, and \<open>step\<close> runs the handler registered for it.

  Conventions of the embedding:
  \<^item> a JavaScript number is a real number, and the handlers compute with exact
    arithmetic.  \<open>NaN\<close>, the infinities and the sign of zero are outside the model, and a
    division is meant for a divisor other than zero (a decoded image has positive width
    and height).  Where a property rests on more than the shape of an expression, the
    rounding of the doubles is written out: the corner property takes every operation up
    to its rounding (\<open>rounds\<close>), and the export property stays within the magnitudes
    whose digits a double keeps;
  \<^item> every handler runs to its end on the rendered state: the handlers are run by one event
    loop, and a state update is taken to be rendered before the next handler starts;
  \<^item> the canvas element is always mounted (\<open>canvasRef.current\<close> is never null after the
    first render); its pixels are not part of the state, so the calls that draw on it are
    left out;
  \<^item> the readings of \<open>performance.now()\<close>, \<open>getBoundingClientRect()\<close> and
    \<open>window.innerWidth/innerHeight\<close> are arguments of the event that reads them.
\<close>

subsection \<open>Data\<close>

text \<open>\<open>interface Point\<close> (lines 5-9).\<close>

record Point =
  time :: real
  x :: real
  y :: real

text \<open>The fields of the \<open>DOMRect\<close> that the sampler reads (lines 109-122).\<close>

record DOMRect =
  rect_left :: real
  rect_right :: real
  rect_top :: real
  rect_bottom :: real
  rect_height :: real

text \<open>
  The state cells of lines 12-23, followed by two cells of the host: the number of countdown
  timeouts that are registered and have not fired yet, and the files handed to \<open>saveAs\<close>
  (file name and text).  An image is its \<open>width\<close> and \<open>height\<close>; the two refs hold a pair
  \<open>(x, y)\<close>.
\<close>

record state =
  image :: "(real \<times> real) option"
  maxX :: real
  maxY :: real
  recording :: bool
  data :: "Point list"
  startTime :: "real option"
  elapsedTime :: real
  waiting :: bool
  canvasScale :: real
  lastPointRef :: "(real \<times> real) option"
  mousePositionRef :: "(real \<times> real) option"
  timers :: nat
  saved :: "(string \<times> string) list"

definition init :: state where
  "init = \<lparr> image = None, maxX = 10, maxY = 10, recording = False, data = [],
      startTime = None, elapsedTime = 0, waiting = False, canvasScale = 1,
      lastPointRef = None, mousePositionRef = None, timers = 0, saved = [] \<rparr>"

subsection \<open>Built-in functions of the language\<close>

text \<open>\<open>Math.round\<close>: the nearest integer, a tie going up.\<close>

definition Math_round :: "real \<Rightarrow> real" where
  "Math_round v = of_int \<lfloor>v + 1 / 2\<rfloor>"

text \<open>
  \<open>parseFloat(v.toFixed(2))\<close>.  \<open>toFixed\<close> takes the sign off, picks the integer \<open>n\<close> with
  \<open>n / 100\<close> nearest to the magnitude (the larger one at a tie) and prints it with two
  decimals; from \<open>10^21\<close> on it prints the number as \<open>toString\<close> does, which \<open>parseFloat\<close>
  reads back unchanged.
\<close>

definition parseFloat_toFixed2 :: "real \<Rightarrow> real" where
  "parseFloat_toFixed2 v =
     (if 10 ^ 21 \<le> \<bar>v\<bar> then v
      else sgn v * of_int \<lfloor>\<bar>v\<bar> * 100 + 1 / 2\<rfloor> / 100)"

text \<open>
  The conversion of a number to a string (\<open>Number::toString\<close>, radix 10) that a template
  literal applies: the shortest digits that read back as the same double, in fixed
  notation below \<open>10^21\<close>.  It is modelled for the numbers with \<open>fixed_range\<close>: of
  magnitude below \<open>10^13\<close> and with at most two fractional digits.  Such a number has at
  most 15 significant digits, which a double keeps apart, so that the shortest digits are
  the digits of the number itself: a minus sign if it is negative, the digits of the
  integer part, and the fractional digits without trailing zeros after a decimal point, or
  nothing when the fraction is zero.  On other numbers (more digits than a double keeps,
  exponential notation, longer fractions) the definition is not meant; it cuts the
  magnitude off at the hundredths there.
\<close>

definition digit :: "nat \<Rightarrow> char" where
  "digit n = ''0123456789'' ! n"

fun digits :: "nat \<Rightarrow> string" where
  "digits n = (if n < 10 then [digit n] else digits (n div 10) @ [digit (n mod 10)])"

declare digits.simps [simp del]

definition fixed_range :: "real \<Rightarrow> bool" where
  "fixed_range v \<longleftrightarrow> \<bar>v\<bar> < 10 ^ 13 \<and> of_int \<lfloor>v * 100\<rfloor> = v * 100"

definition fraction :: "nat \<Rightarrow> string" where
  "fraction f =
     (if f = 0 then []
      else if f mod 10 = 0 then [digit (f div 10)]
      else [digit (f div 10), digit (f mod 10)])"

definition hundredths :: "real \<Rightarrow> nat" where
  "hundredths v = nat \<lfloor>\<bar>v\<bar> * 100\<rfloor>"

definition Number_toString :: "real \<Rightarrow> string" where
  "Number_toString v =
     (if v < 0 then ''-'' else [])
     @ digits (hundredths v div 100)
     @ (if hundredths v mod 100 = 0 then [] else CHR ''.'' # fraction (hundredths v mod 100))"

text \<open>\<open>Array.prototype.join\<close> on an array of strings.\<close>

fun join :: "string \<Rightarrow> string list \<Rightarrow> string" where
  "join sep [] = []"
| "join sep [a] = a"
| "join sep (a # b # r) = a @ sep @ join sep (b # r)"

subsection \<open>Geometry (lines 25-52)\<close>

definition updateCanvasSize :: "real \<Rightarrow> real \<Rightarrow> state \<Rightarrow> state" where
  "updateCanvasSize innerWidth innerHeight s =
     (case image s of
        None \<Rightarrow> s
      | Some (w, h) \<Rightarrow>
          s\<lparr>canvasScale := min (innerWidth * (9 / 10) / w) (innerHeight * (6 / 10) / h)\<rparr>)"

definition scaleX :: "state \<Rightarrow> real" where
  "scaleX s = (case image s of None \<Rightarrow> 1 | Some (w, h) \<Rightarrow> maxX s / (w * canvasScale s))"

definition scaleY :: "state \<Rightarrow> real" where
  "scaleY s = (case image s of None \<Rightarrow> 1 | Some (w, h) \<Rightarrow> maxY s / (h * canvasScale s))"

subsection \<open>The coordinate mapper (lines 121-122)\<close>

definition coordinateMapper :: "real \<Rightarrow> real \<Rightarrow> real \<Rightarrow> real \<Rightarrow> real \<Rightarrow> real \<times> real" where
  "coordinateMapper sx sy surfaceHeight rawX rawY =
     (rawX * sx, (surfaceHeight - rawY) * sy)"

subsection \<open>Export (lines 54-59)\<close>

text \<open>The local \<open>csv\<close> of line 56; the line feed is the character \<open>0x0A\<close>.\<close>

definition row :: "Point \<Rightarrow> string" where
  "row d = Number_toString (time d) @ '','' @ Number_toString (x d) @ '','' @ Number_toString (y d)"

definition csv :: "Point list \<Rightarrow> string" where
  "csv ds = join [CHR 0x0A] (''time,x,y'' # map row ds)"

text \<open>
  \<open>downloadCSV\<close> returns at once on an empty array; otherwise it hands the text to
  \<open>saveAs\<close> under the name \<open>walk_trace.csv\<close> (as a blob of type \<open>text/csv;charset=utf-8;\<close>).
\<close>

definition downloadCSV :: "state \<Rightarrow> state" where
  "downloadCSV s =
     (if length (data s) = 0 then s
      else s\<lparr>saved := saved s @ [(''walk_trace.csv'', csv (data s))]\<rparr>)"

subsection \<open>The key handler and the countdown (lines 62-87)\<close>

text \<open>
  \<open>handleKeyDown\<close> gets the \<open>code\<close> of the key.  In the first branch it registers the
  timeout of 3000 ms; \<open>countdownElapsed\<close> is the callback of that timeout, with the reading
  of \<open>performance.now()\<close> of line 71.
\<close>

definition handleKeyDown :: "string \<Rightarrow> state \<Rightarrow> state" where
  "handleKeyDown code s =
     (if code = ''Space'' then
        (if \<not> recording s \<and> \<not> waiting s then s\<lparr>waiting := True, timers := Suc (timers s)\<rparr>
         else if recording s then downloadCSV (s\<lparr>recording := False\<rparr>)
         else s)
      else s)"

definition countdownElapsed :: "real \<Rightarrow> state \<Rightarrow> state" where
  "countdownElapsed now s =
     s\<lparr>data := [], elapsedTime := 0, lastPointRef := None, startTime := Some now,
       recording := True, waiting := False\<rparr>"

subsection \<open>The pointer listener (lines 93-95)\<close>

definition handleMouseMove :: "real \<Rightarrow> real \<Rightarrow> state \<Rightarrow> state" where
  "handleMouseMove clientX clientY s = s\<lparr>mousePositionRef := Some (clientX, clientY)\<rparr>"

subsection \<open>The sampler (lines 100-144)\<close>

text \<open>
  The effect registers the interval only while \<open>recording\<close> holds and \<open>startTime\<close> is
  neither null nor zero (line 101); the callback keeps the \<open>startTime\<close> of that render.
  \<open>samplerInterval\<close> is that \<open>startTime\<close> if the interval is registered.
\<close>

definition samplerInterval :: "state \<Rightarrow> real option" where
  "samplerInterval s =
     (if \<not> recording s then None
      else case startTime s of None \<Rightarrow> None | Some t0 \<Rightarrow> if t0 = 0 then None else Some t0)"

text \<open>
  The callback of the interval (lines 106-141).  \<open>t0\<close> is the \<open>startTime\<close> of the closure,
  \<open>now1\<close> the clock reading of line 123 and \<open>now2\<close> that of line 140.
\<close>

definition samplerTick :: "DOMRect \<Rightarrow> real \<Rightarrow> real \<Rightarrow> real \<Rightarrow> state \<Rightarrow> state" where
  "samplerTick rect t0 now1 now2 s =
     (case mousePositionRef s of
        None \<Rightarrow> s
      | Some (mouseX, mouseY) \<Rightarrow>
          (let s1 =
             (if rect_left rect \<le> mouseX \<and> mouseX \<le> rect_right rect \<and>
                 rect_top rect \<le> mouseY \<and> mouseY \<le> rect_bottom rect
              then
                (let rawX = mouseX - rect_left rect;
                     rawY = mouseY - rect_top rect;
                     p = coordinateMapper (scaleX s) (scaleY s) (rect_height rect) rawX rawY;
                     t = Math_round (now1 - t0)
                 in s\<lparr>data := data s @ [\<lparr>time = t, x = parseFloat_toFixed2 (fst p),
                                           y = parseFloat_toFixed2 (snd p)\<rparr>],
                      lastPointRef := Some (rawX, rawY)\<rparr>)
              else s)
           in s1\<lparr>elapsedTime := (now2 - t0) / 1000\<rparr>))"

subsection \<open>The image loader and the bound inputs (lines 146-170)\<close>

text \<open>
  \<open>img.onload\<close> stores the image and its dimensions as bounds; the effect of lines 47-49
  then recomputes the canvas size in the viewport of that moment.
\<close>

definition imageLoaded :: "real \<Rightarrow> real \<Rightarrow> real \<Rightarrow> real \<Rightarrow> state \<Rightarrow> state" where
  "imageLoaded w h innerWidth innerHeight s =
     updateCanvasSize innerWidth innerHeight (s\<lparr>image := Some (w, h), maxX := w, maxY := h\<rparr>)"

subsection \<open>Events\<close>

text \<open>
  The events of the host, each with what its handler reads from the host:
  \<^item> \<open>ImageLoad w h iw ih\<close>: an uploaded image of width \<open>w\<close> and height \<open>h\<close> has
    loaded, in a viewport of \<open>iw\<close> by \<open>ih\<close>;
  \<^item> \<open>Resize iw ih\<close>: the viewport has been resized to \<open>iw\<close> by \<open>ih\<close>;
  \<^item> \<open>SetMaxX v\<close>, \<open>SetMaxY v\<close>: a bound input has been changed to the number \<open>v\<close>;
  \<^item> \<open>KeyDown code\<close>: a key has been pressed;
  \<^item> \<open>MouseMove cx cy\<close>: the pointer has moved to \<open>(cx, cy)\<close> in the viewport;
  \<^item> \<open>TimerElapsed now\<close>: the countdown timeout fires at clock reading \<open>now\<close>;
  \<^item> \<open>Tick rect now1 now2\<close>: the sampler interval fires; the canvas has the bounding
    rectangle \<open>rect\<close>, and the clock reads \<open>now1\<close> and then \<open>now2\<close>.
\<close>

datatype event =
    ImageLoad real real real real
  | Resize real real
  | SetMaxX real
  | SetMaxY real
  | KeyDown string
  | MouseMove real real
  | TimerElapsed real
  | Tick DOMRect real real

text \<open>
  The host fires a timeout only if one is registered, and the interval only while the
  sampler effect has it registered.
\<close>

fun step :: "event \<Rightarrow> state \<Rightarrow> state" where
  "step (ImageLoad w h iw ih) s = imageLoaded w h iw ih s"
| "step (Resize iw ih) s = updateCanvasSize iw ih s"
| "step (SetMaxX v) s = s\<lparr>maxX := v\<rparr>"
| "step (SetMaxY v) s = s\<lparr>maxY := v\<rparr>"
| "step (KeyDown code) s = handleKeyDown code s"
| "step (MouseMove cx cy) s = handleMouseMove cx cy s"
| "step (TimerElapsed now) s =
     (if 0 < timers s then countdownElapsed now (s\<lparr>timers := timers s - 1\<rparr>) else s)"
| "step (Tick rect now1 now2) s =
     (case samplerInterval s of None \<Rightarrow> s | Some t0 \<Rightarrow> samplerTick rect t0 now1 now2 s)"

fun run :: "event list \<Rightarrow> state \<Rightarrow> state" where
  "run [] s = s"
| "run (e # es) s = run es (step e s)"

text \<open>The three states of the recording life cycle, read off the two flags.\<close>

datatype phase = Idle | CountingDown | Recording

definition phase_of :: "state \<Rightarrow> phase" where
  "phase_of s = (if recording s then Recording else if waiting s then CountingDown else Idle)"

subsection \<open>Notions used in the properties\<close>

text \<open>
  What holds of the two flags and the registered timeouts in every state the events can
  lead to: a timeout is registered exactly while \<open>waiting\<close> holds, and \<open>waiting\<close> and
  \<open>recording\<close> never hold together.
\<close>

definition lifecycle :: "state \<Rightarrow> bool" where
  "lifecycle s \<longleftrightarrow> timers s = (if waiting s then 1 else 0) \<and> \<not> (waiting s \<and> recording s)"

text \<open>The containment test of lines 113-118, and a pointer that lies on an edge.\<close>

definition inside :: "DOMRect \<Rightarrow> real \<times> real \<Rightarrow> bool" where
  "inside rect p \<longleftrightarrow>
     rect_left rect \<le> fst p \<and> fst p \<le> rect_right rect \<and>
     rect_top rect \<le> snd p \<and> snd p \<le> rect_bottom rect"

definition on_edge :: "DOMRect \<Rightarrow> real \<times> real \<Rightarrow> bool" where
  "on_edge rect p \<longleftrightarrow>
     inside rect p \<and>
     (fst p = rect_left rect \<or> fst p = rect_right rect \<or>
      snd p = rect_top rect \<or> snd p = rect_bottom rect)"

text \<open>
  Rounding.  The arithmetic of the code is that of doubles: the result of an operation is
  the exact result rounded to the nearest double, which in the range of the normal doubles
  is within the relative error \<open>2^-53\<close>.  \<open>rounds r v\<close> holds if \<open>r\<close> is that close to the
  exact value \<open>v\<close>.  \<open>approx\<close> is closeness within one hundredth, which covers the rounding
  to two decimals (half a hundredth) and the rounding of the arithmetic.
\<close>

definition rounds :: "real \<Rightarrow> real \<Rightarrow> bool" where
  "rounds r v \<longleftrightarrow> \<bar>r - v\<bar> \<le> \<bar>v\<bar> / 2 ^ 53"

definition approx :: "real \<Rightarrow> real \<Rightarrow> bool" where
  "approx a b \<longleftrightarrow> \<bar>a - b\<bar> \<le> 1 / 100"

text \<open>
  The clock.  \<open>readings_mono c es\<close> holds if the successive readings of
  \<open>performance.now()\<close> in the events \<open>es\<close> never decrease, \<open>c\<close> being the reading before
  them.
\<close>

fun reading_ok :: "real \<Rightarrow> event \<Rightarrow> bool" where
  "reading_ok c (TimerElapsed now) = (c \<le> now)"
| "reading_ok c (Tick rect now1 now2) = (c \<le> now1 \<and> now1 \<le> now2)"
| "reading_ok c _ = True"

fun last_reading :: "real \<Rightarrow> event \<Rightarrow> real" where
  "last_reading c (TimerElapsed now) = now"
| "last_reading c (Tick rect now1 now2) = now2"
| "last_reading c _ = c"

fun readings_mono :: "real \<Rightarrow> event list \<Rightarrow> bool" where
  "readings_mono c [] = True"
| "readings_mono c (e # es) = (reading_ok c e \<and> readings_mono (last_reading c e) es)"

text \<open>
  \<open>session_ticks n es s\<close> counts the ticks of the sampler along the events \<open>es\<close> from the
  state \<open>s\<close>: the count starts again from zero when a countdown elapses, and a tick counts
  if the interval is registered.
\<close>

fun count_tick :: "nat \<Rightarrow> event \<Rightarrow> state \<Rightarrow> nat" where
  "count_tick n (TimerElapsed now) s = (if 0 < timers s then 0 else n)"
| "count_tick n (Tick rect now1 now2) s = (if samplerInterval s = None then n else Suc n)"
| "count_tick n _ s = n"

fun session_ticks :: "nat \<Rightarrow> event list \<Rightarrow> state \<Rightarrow> nat" where
  "session_ticks n [] s = n"
| "session_ticks n (e # es) s = session_ticks (count_tick n e s) es (step e s)"

text \<open>
  The invariant of a session behind the order of the samples: with the clock at \<open>c\<close> and
  \<open>n\<close> ticks counted, no sample is later than the time a tick would give now.
\<close>

definition session_inv :: "real \<Rightarrow> nat \<Rightarrow> state \<Rightarrow> bool" where
  "session_inv c n s \<longleftrightarrow>
     length (data s) \<le> n \<and> sorted (map time (data s)) \<and>
     (\<forall>p\<in>set (data s). time p \<in> \<int> \<and> 0 \<le> time p) \<and>
     (\<forall>t0. samplerInterval s = Some t0 \<longrightarrow>
        t0 \<le> c \<and> (\<forall>p\<in>set (data s). time p \<le> Math_round (c - t0)))"

text \<open>
  Reading a CSV text back: the lines, each cut at its commas.  A field is a decimal numeral
  if it is an optional minus sign, one digit or more, and then nothing or a decimal point
  with one digit or more; \<open>decimal_value\<close> is the number it denotes.
\<close>

fun split_on :: "char \<Rightarrow> string \<Rightarrow> string list" where
  "split_on c [] = [[]]"
| "split_on c (a # s) =
     (if a = c then [] # split_on c s
      else (a # hd (split_on c s)) # tl (split_on c s))"

definition read_csv :: "string \<Rightarrow> string list list" where
  "read_csv text = map (split_on (CHR '','')) (split_on (CHR 0x0A) text)"

definition is_digit :: "char \<Rightarrow> bool" where
  "is_digit c \<longleftrightarrow> c \<in> set ''0123456789''"

definition digit_value :: "char \<Rightarrow> nat" where
  "digit_value c = of_char c - 48"

definition digits_value :: "string \<Rightarrow> nat" where
  "digits_value ds = foldl (\<lambda>a c. 10 * a + digit_value c) 0 ds"

definition unsigned :: "string \<Rightarrow> string" where
  "unsigned s = (if take 1 s = ''-'' then drop 1 s else s)"

definition integer_digits :: "string \<Rightarrow> string" where
  "integer_digits s = takeWhile (\<lambda>c. c \<noteq> CHR ''.'') (unsigned s)"

definition fraction_digits :: "string \<Rightarrow> string" where
  "fraction_digits s = drop 1 (dropWhile (\<lambda>c. c \<noteq> CHR ''.'') (unsigned s))"

definition decimal_numeral :: "string \<Rightarrow> bool" where
  "decimal_numeral s \<longleftrightarrow>
     integer_digits s \<noteq> [] \<and> list_all is_digit (integer_digits s) \<and>
     list_all is_digit (fraction_digits s) \<and>
     unsigned s = integer_digits s
       @ (if fraction_digits s = [] then [] else CHR ''.'' # fraction_digits s)"

definition decimal_value :: "string \<Rightarrow> real" where
  "decimal_value s =
     (if take 1 s = ''-'' then - 1 else 1) *
     (real (digits_value (integer_digits s))
      + real (digits_value (fraction_digits s)) / 10 ^ length (fraction_digits s))"

text \<open>
  Two formats of a field: exactly two fractional digits (\<open>5.00\<close>, \<open>5.10\<close>), and the
  shortest numeral of a number of at most two fractional digits (\<open>5\<close>, \<open>5.1\<close>, \<open>5.25\<close>).
\<close>

definition fixed2 :: "string \<Rightarrow> bool" where
  "fixed2 s \<longleftrightarrow> decimal_numeral s \<and> length (fraction_digits s) = 2"

definition shortest2 :: "string \<Rightarrow> bool" where
  "shortest2 s \<longleftrightarrow>
     decimal_numeral s \<and> length (fraction_digits s) \<le> 2 \<and>
     (fraction_digits s = [] \<or> last (fraction_digits s) \<noteq> CHR ''0'')"

text \<open>
  What the sampler stores: a value of a sample that is below \<open>10^13\<close> in magnitude has at
  most two fractional digits.
\<close>

definition stored :: "Point \<Rightarrow> bool" where
  "stored d \<longleftrightarrow> (\<forall>v\<in>{time d, x d, y d}. \<bar>v\<bar> < 10 ^ 13 \<longrightarrow> fixed_range v)"

text \<open>A surface of 800 by 600 pixels at the origin of the viewport, for the examples.\<close>

definition surface :: DOMRect where
  "surface = \<lparr> rect_left = 0, rect_right = 800, rect_top = 0, rect_bottom = 600,
      rect_height = 600 \<rparr>"

text \<open>
  A session for the examples: an image of 800 by 600 pixels shown at scale 1, bounds 10 and
  10, the pointer at the centre, the toggle, the countdown elapsing at clock 1000, a tick,
  the pointer moved to (100, 450), and a second tick.
\<close>

definition scenario :: "event list" where
  "scenario =
     [ImageLoad 800 600 1000 1000, SetMaxX 10, SetMaxY 10, MouseMove 400 300,
      KeyDown ''Space'', TimerElapsed 1000, Tick surface (10167 / 10) 1017,
      MouseMove 100 450, Tick surface (10334 / 10) 1034]"

section \<open>Properties\<close>

subsection \<open>Auxiliary facts\<close>

lemmas handler_defs =
  init_def imageLoaded_def updateCanvasSize_def handleKeyDown_def downloadCSV_def
  handleMouseMove_def countdownElapsed_def samplerInterval_def samplerTick_def
  coordinateMapper_def scaleX_def scaleY_def Math_round_def parseFloat_toFixed2_def
  surface_def

text \<open>The flags and the timeouts.\<close>

lemma lifecycle_init: "lifecycle init"
  by (simp add: lifecycle_def init_def)

lemma lifecycle_step: "lifecycle s \<Longrightarrow> lifecycle (step e s)"
  by (cases e)
     (auto simp: lifecycle_def imageLoaded_def updateCanvasSize_def handleKeyDown_def
        downloadCSV_def handleMouseMove_def countdownElapsed_def samplerTick_def Let_def
        split: option.splits if_splits prod.splits)

lemma lifecycle_run: "lifecycle s \<Longrightarrow> lifecycle (run es s)"
  by (induction es arbitrary: s) (simp_all add: lifecycle_step)

lemma lifecycle_reachable: "lifecycle (run es init)"
  by (simp add: lifecycle_run lifecycle_init)

lemma CountingDown_iff: "phase_of s = CountingDown \<longleftrightarrow> waiting s \<and> \<not> recording s"
  by (simp add: phase_of_def)

lemma step_keeps_waiting:
  "waiting s \<Longrightarrow> \<not> recording s \<Longrightarrow> waiting (step e s) \<or> recording (step e s)"
  by (cases e)
     (auto simp: imageLoaded_def updateCanvasSize_def handleKeyDown_def
        downloadCSV_def handleMouseMove_def countdownElapsed_def samplerTick_def Let_def samplerInterval_def
        split: option.splits if_splits prod.splits)

lemma step_data:
  "(\<exists>ps. data (step e s) = data s @ ps) \<or> (0 < timers s \<and> (\<exists>now. e = TimerElapsed now))"
  by (cases e)
     (auto simp: imageLoaded_def updateCanvasSize_def handleKeyDown_def
        downloadCSV_def handleMouseMove_def countdownElapsed_def samplerTick_def Let_def samplerInterval_def
        split: option.splits if_splits prod.splits)

text \<open>Rounding.\<close>

lemma Math_round_mono: "a \<le> b \<Longrightarrow> Math_round a \<le> Math_round b"
  by (simp add: Math_round_def floor_mono)

lemma Math_round_nonneg: "0 \<le> v \<Longrightarrow> 0 \<le> Math_round v"
  by (simp add: Math_round_def)

lemma Math_round_int: "Math_round v \<in> \<int>"
  by (simp add: Math_round_def)

lemma parseFloat_toFixed2_error: "\<bar>parseFloat_toFixed2 v - v\<bar> \<le> 1 / 200"
proof (cases "10 ^ 21 \<le> \<bar>v\<bar>")
  case True
  then show ?thesis by (simp add: parseFloat_toFixed2_def)
next
  case False
  define a where "a = \<bar>v\<bar>"
  define n where "n = \<lfloor>a * 100 + 1 / 2\<rfloor>"
  have lo: "of_int n \<le> a * 100 + 1 / 2" and hi: "a * 100 + 1 / 2 < of_int n + 1"
    unfolding n_def by linarith+
  have "- (1 / 200) \<le> of_int n / 100 - a" and "of_int n / 100 - a \<le> 1 / 200"
    using lo hi by linarith+
  then have "\<bar>of_int n / 100 - a\<bar> \<le> 1 / 200"
    by (intro abs_leI) linarith+
  then have d: "\<bar>of_int n / 100 - \<bar>v\<bar>\<bar> \<le> 1 / 200"
    by (simp add: a_def)
  have "parseFloat_toFixed2 v - v = sgn v * (of_int n / 100 - \<bar>v\<bar>)"
    using False mult_sgn_abs [of v]
    by (simp add: parseFloat_toFixed2_def n_def a_def algebra_simps)
       
  then have "\<bar>parseFloat_toFixed2 v - v\<bar> = \<bar>sgn v\<bar> * \<bar>of_int n / 100 - \<bar>v\<bar>\<bar>"
    by (simp add: abs_mult)
  also have "\<dots> \<le> 1 * \<bar>of_int n / 100 - \<bar>v\<bar>\<bar>"
    by (rule mult_right_mono) (simp_all add: abs_sgn_eq)
  finally show ?thesis using d by simp
qed

lemma parseFloat_toFixed2_zero: "parseFloat_toFixed2 0 = 0"
  by (simp add: parseFloat_toFixed2_def)

text \<open>Rounding as a double does.\<close>

lemma rounds_refl: "rounds v v"
  by (simp add: rounds_def)

lemma rounds_error: "rounds r v \<Longrightarrow> \<bar>r - v\<bar> \<le> \<bar>v\<bar> / 10 ^ 15"
proof -
  assume "rounds r v"
  then have "\<bar>r - v\<bar> \<le> \<bar>v\<bar> / 2 ^ 53" by (simp add: rounds_def)
  also have "\<dots> \<le> \<bar>v\<bar> / 10 ^ 15"
    by (rule divide_left_mono) simp_all
  finally show ?thesis .
qed

lemma rounds_positive:
  assumes r: "rounds r v" and v: "1 \<le> v"
  shows "0 < r"
proof -
  from v have "\<bar>v\<bar> / 2 ^ 53 \<le> v / 2"
    by simp
  with r have "\<bar>r - v\<bar> \<le> v / 2"
    by (simp add: rounds_def)
  with v show ?thesis
    by linarith
qed

lemma rounds_error_bound:
  assumes r: "rounds r v" and b: "\<bar>v\<bar> \<le> 2000000000"
  shows "\<bar>r - v\<bar> \<le> 2 / 1000000"
proof -
  have "\<bar>v\<bar> / 10 ^ 15 \<le> 2000000000 / 10 ^ 15"
    using b by (rule divide_right_mono) simp
  with rounds_error [OF r] show ?thesis by simp
qed

text \<open>
  The top-right corner under rounding: a width \<open>W\<close>, the quotient \<open>m / W\<close> rounded to
  \<open>sx\<close>, the product \<open>W * sx\<close> rounded to \<open>px\<close>, and the two decimals of \<open>px\<close> rounded to
  \<open>qx\<close>.
\<close>

lemma corner_rounding:
  assumes W: "0 < W" and m: "\<bar>m\<bar> \<le> 10 ^ 9"
    and sx: "rounds sx (m / W)" and px: "rounds px (W * sx)"
    and qx: "rounds qx (parseFloat_toFixed2 px)"
  shows "approx px m" and "approx qx m"
proof -
  define z where "z = W * sx"
  define t where "t = parseFloat_toFixed2 px"
  from m have m': "\<bar>m\<bar> \<le> 1000000000"
    by simp
  have q: "\<bar>sx - m / W\<bar> \<le> \<bar>m / W\<bar> / 10 ^ 15"
    using sx by (rule rounds_error)
  have "z - m = W * (sx - m / W)"
    using W by (simp add: z_def algebra_simps)
  then have "\<bar>z - m\<bar> = W * \<bar>sx - m / W\<bar>"
    using W by (simp add: abs_mult)
  also have "\<dots> \<le> W * (\<bar>m / W\<bar> / 10 ^ 15)"
    by (rule mult_left_mono [OF q]) (use W in simp)
  also have "\<dots> = \<bar>m\<bar> / 10 ^ 15"
    using W by (simp add: abs_divide)
  also have "\<dots> \<le> 10 ^ 9 / 10 ^ 15"
    using m by (rule divide_right_mono) simp
  finally have a: "\<bar>z - m\<bar> \<le> 1 / 1000000"
    by simp
  from a m' have "\<bar>z\<bar> \<le> 2000000000"
    by linarith
  moreover from px have "rounds px z"
    by (simp add: z_def)
  ultimately have b: "\<bar>px - z\<bar> \<le> 2 / 1000000"
    by (intro rounds_error_bound)
  from a b have p: "\<bar>px - m\<bar> \<le> 3 / 1000000"
    by linarith
  have c: "\<bar>t - px\<bar> \<le> 1 / 200"
    unfolding t_def by (rule parseFloat_toFixed2_error)
  from c p m' have "\<bar>t\<bar> \<le> 2000000000"
    by linarith
  moreover from qx have "rounds qx t"
    by (simp add: t_def)
  ultimately have d: "\<bar>qx - t\<bar> \<le> 2 / 1000000"
    by (intro rounds_error_bound)
  from p have "\<bar>px - m\<bar> \<le> 1 / 100"
    by linarith
  then show "approx px m"
    by (simp add: approx_def)
  from c d p have "\<bar>qx - m\<bar> \<le> 1 / 100"
    by linarith
  then show "approx qx m"
    by (simp add: approx_def)
qed

text \<open>The sampler keeps the invariant of a session.\<close>

lemma samplerInterval_elapsedTime [simp]:
  "samplerInterval (s\<lparr>elapsedTime := v\<rparr>) = samplerInterval s"
  by (simp add: samplerInterval_def)

lemma samplerTick_data:
  "data (samplerTick rect t0 now1 now2 s) = data s \<or>
   (\<exists>a b. data (samplerTick rect t0 now1 now2 s)
      = data s @ [\<lparr>time = Math_round (now1 - t0), x = a, y = b\<rparr>])"
  by (auto simp: samplerTick_def Let_def split: option.splits prod.splits)

lemma samplerTick_interval:
  "samplerInterval (samplerTick rect t0 now1 now2 s) = samplerInterval s"
  by (auto simp: samplerTick_def samplerInterval_def Let_def split: option.splits prod.splits)

lemma session_inv_tick:
  assumes inv: "session_inv c n s" and act: "samplerInterval s = Some t0"
    and c1: "c \<le> now1" and c2: "now1 \<le> now2"
  shows "session_inv now2 (Suc n) (samplerTick rect t0 now1 now2 s)"
proof -
  let ?s' = "samplerTick rect t0 now1 now2 s"
  from inv act have t0: "t0 \<le> c"
    and old: "\<forall>p\<in>set (data s). time p \<le> Math_round (c - t0)"
    and len: "length (data s) \<le> n" and srt: "sorted (map time (data s))"
    and nn: "\<forall>p\<in>set (data s). time p \<in> \<int> \<and> 0 \<le> time p"
    by (auto simp: session_inv_def)
  have r1: "Math_round (c - t0) \<le> Math_round (now1 - t0)"
    using c1 by (simp add: Math_round_mono)
  have r2: "Math_round (now1 - t0) \<le> Math_round (now2 - t0)"
    using c2 by (simp add: Math_round_mono)
  have r0: "0 \<le> Math_round (now1 - t0)"
    using t0 c1 by (simp add: Math_round_nonneg)
  have int: "samplerInterval ?s' = Some t0"
    using act by (simp add: samplerTick_interval)
  from samplerTick_data [of rect t0 now1 now2 s]
  show ?thesis
  proof
    assume same: "data ?s' = data s"
    with old r1 r2 have "\<forall>p\<in>set (data ?s'). time p \<le> Math_round (now2 - t0)"
      by fastforce
    with same len srt nn t0 c1 c2 int show ?thesis
      by (simp add: session_inv_def)
  next
    assume "\<exists>a b. data ?s' = data s @ [\<lparr>time = Math_round (now1 - t0), x = a, y = b\<rparr>]"
    then obtain a b where app: "data ?s' = data s @ [\<lparr>time = Math_round (now1 - t0), x = a, y = b\<rparr>]"
      by blast
    have le1: "\<forall>p\<in>set (data s). time p \<le> Math_round (now1 - t0)"
      using old r1 by fastforce
    have s': "sorted (map time (data ?s'))"
      using srt le1 by (simp add: app sorted_append)
    have b': "\<forall>p\<in>set (data ?s'). time p \<le> Math_round (now2 - t0)"
      using le1 r2 by (fastforce simp: app)
    have n': "\<forall>p\<in>set (data ?s'). time p \<in> \<int> \<and> 0 \<le> time p"
      using nn r0 by (auto simp: app Math_round_int)
    have l': "length (data ?s') \<le> Suc n"
      using len by (simp add: app)
    from s' b' n' l' int t0 c1 c2 show ?thesis
      by (simp add: session_inv_def)
  qed
qed

lemma session_inv_clock:
  "session_inv c n s \<Longrightarrow> c \<le> c' \<Longrightarrow> session_inv c' n s"
  unfolding session_inv_def
  by (meson Math_round_mono diff_right_mono order_trans)

lemma session_inv_step:
  assumes inv: "session_inv c n s" and ok: "reading_ok c e"
  shows "session_inv (last_reading c e) (count_tick n e s) (step e s)"
proof (cases e)
  case (Tick rect now1 now2)
  show ?thesis
  proof (cases "samplerInterval s")
    case None
    with Tick ok inv show ?thesis
      using session_inv_clock [of c n s now2] by simp
  next
    case (Some t0)
    with Tick ok inv show ?thesis
      using session_inv_tick [of c n s t0 now1 now2 rect] by simp
  qed
next
  case (TimerElapsed now)
  show ?thesis
  proof (cases "0 < timers s")
    case True
    with TimerElapsed inv show ?thesis
      by (auto simp: session_inv_def countdownElapsed_def samplerInterval_def)
  next
    case False
    with TimerElapsed ok inv show ?thesis
      using session_inv_clock [of c n s now] by simp
  qed
next
  case (KeyDown code)
  with inv show ?thesis
    by (auto simp: session_inv_def handleKeyDown_def downloadCSV_def samplerInterval_def
        split: if_splits option.splits)
qed (use inv in \<open>auto simp: session_inv_def imageLoaded_def updateCanvasSize_def
        handleMouseMove_def samplerInterval_def split: option.splits if_splits prod.splits\<close>)

lemma session_inv_run:
  "session_inv c n s \<Longrightarrow> readings_mono c es \<Longrightarrow>
     \<exists>c'. session_inv c' (session_ticks n es s) (run es s)"
proof (induction es arbitrary: c n s)
  case Nil
  then show ?case by auto
next
  case (Cons e es)
  from Cons.prems have "session_inv (last_reading c e) (count_tick n e s) (step e s)"
    by (simp add: session_inv_step)
  with Cons.prems Cons.IH show ?case by simp
qed

lemma session_inv_init: "session_inv c 0 init"
  by (simp add: session_inv_def init_def samplerInterval_def)

text \<open>Cutting a joined text, and the digits of a number.\<close>

lemma split_on_none: "c \<notin> set w \<Longrightarrow> split_on c w = [w]"
  by (induction w) auto

lemma split_on_append: "c \<notin> set w \<Longrightarrow> split_on c (w @ c # s) = w # split_on c s"
  by (induction w) auto

lemma split_on_join:
  "ws \<noteq> [] \<Longrightarrow> \<forall>w\<in>set ws. c \<notin> set w \<Longrightarrow> split_on c (join [c] ws) = ws"
proof (induction "[c]" ws rule: join.induct)
  case 1
  then show ?case by simp
next
  case (2 a)
  then show ?case by (simp add: split_on_none)
next
  case (3 a b r)
  then show ?case by (simp add: split_on_append)
qed

lemma digit_cases: "n < 10 \<Longrightarrow> n \<in> {0, 1, 2, 3, 4, 5, 6, 7, 8, 9 :: nat}"
  by (simp only: insert_iff empty_iff) arith

lemma digit_is_digit: "n < 10 \<Longrightarrow> is_digit (digit n)"
  using digit_cases [of n] by (auto simp: digit_def is_digit_def)

lemma digit_value_digit: "n < 10 \<Longrightarrow> digit_value (digit n) = n"
  using digit_cases [of n] by (auto simp: digit_def digit_value_def)

lemma digit_zero: "n < 10 \<Longrightarrow> digit n = CHR ''0'' \<longleftrightarrow> n = 0"
  using digit_cases [of n] by (auto simp: digit_def)

lemma digits_is_digit: "list_all is_digit (digits n)"
proof (induction n rule: digits.induct)
  case (1 n)
  show ?case
  proof (cases "n < 10")
    case True
    then show ?thesis by (simp add: digits.simps [of n] digit_is_digit)
  next
    case False
    with 1 show ?thesis by (simp add: digits.simps [of n] digit_is_digit)
  qed
qed

lemma digits_nonempty: "digits n \<noteq> []"
  by (subst digits.simps) simp

lemma digits_value_snoc: "digits_value (ds @ [c]) = 10 * digits_value ds + digit_value c"
  by (simp add: digits_value_def)

lemma digits_value_digits: "digits_value (digits n) = n"
proof (induction n rule: digits.induct)
  case (1 n)
  show ?case
  proof (cases "n < 10")
    case True
    then show ?thesis by (simp add: digits.simps [of n] digits_value_def digit_value_digit)
  next
    case False
    with 1 show ?thesis
      by (simp add: digits.simps [of n] digits_value_snoc digit_value_digit)
  qed
qed

lemma is_digit_not_sep:
  "is_digit c \<Longrightarrow> c \<noteq> CHR ''.'' \<and> c \<noteq> CHR ''-'' \<and> c \<noteq> CHR '','' \<and> c \<noteq> CHR 0x0A"
  by (auto simp: is_digit_def)

lemma all_digits_not_sep:
  "list_all is_digit ds \<Longrightarrow>
     CHR ''.'' \<notin> set ds \<and> CHR ''-'' \<notin> set ds \<and> CHR '','' \<notin> set ds \<and> CHR 0x0A \<notin> set ds"
  using is_digit_not_sep by (auto simp: list_all_iff)

lemma fraction_is_digit: "f < 100 \<Longrightarrow> list_all is_digit (fraction f)"
  by (simp add: fraction_def digit_is_digit)

lemma fraction_length: "length (fraction f) \<le> 2"
  by (simp add: fraction_def)

lemma fraction_empty: "fraction f = [] \<longleftrightarrow> f = 0"
  by (simp add: fraction_def)

lemma fraction_last: "f < 100 \<Longrightarrow> f \<noteq> 0 \<Longrightarrow> last (fraction f) \<noteq> CHR ''0''"
  by (auto simp: fraction_def digit_zero)

lemma fraction_value:
  "f < 100 \<Longrightarrow> real (digits_value (fraction f)) / 10 ^ length (fraction f) = real f / 100"
proof -
  assume f: "f < 100"
  have d: "f div 10 < 10" "f mod 10 < 10" using f by auto
  show ?thesis
  proof (cases "f = 0")
    case True
    then show ?thesis by (simp add: fraction_def digits_value_def)
  next
    case nz: False
    show ?thesis
    proof (cases "f mod 10 = 0")
      case True
      then have "f = 10 * (f div 10)" by presburger
      then have "real f = 10 * real (f div 10)" by (metis of_nat_mult of_nat_numeral)
      with nz True d show ?thesis
        by (simp add: fraction_def digits_value_def digit_value_digit)
    next
      case False
      have "f = 10 * (f div 10) + f mod 10" by simp
      then have "real f = 10 * real (f div 10) + real (f mod 10)"
        by (metis of_nat_add of_nat_mult of_nat_numeral)
      with nz False d show ?thesis
        by (simp add: fraction_def digits_value_def digit_value_digit)
    qed
  qed
qed

lemma digits_hd: "take 1 (digits n @ r) \<noteq> ''-''"
proof -
  obtain c cs where d: "digits n = c # cs"
    using digits_nonempty [of n] by (cases "digits n") auto
  with digits_is_digit [of n] have "is_digit c" by simp
  with d show ?thesis using is_digit_not_sep by auto
qed

lemma take1_Number_toString: "take 1 (Number_toString v) = ''-'' \<longleftrightarrow> v < 0"
  using digits_hd by (simp add: Number_toString_def)

lemma unsigned_Number_toString:
  "unsigned (Number_toString v) =
     digits (hundredths v div 100)
     @ (if hundredths v mod 100 = 0 then [] else CHR ''.'' # fraction (hundredths v mod 100))"
proof (cases "v < 0")
  case True
  then show ?thesis by (simp add: unsigned_def Number_toString_def)
next
  case False
  then show ?thesis
    using digits_hd by (simp add: unsigned_def Number_toString_def)
qed

lemma integer_digits_Number_toString:
  "integer_digits (Number_toString v) = digits (hundredths v div 100)"
proof -
  have "\<forall>c\<in>set (digits (hundredths v div 100)). c \<noteq> CHR ''.''"
    using all_digits_not_sep [OF digits_is_digit] by blast
  then show ?thesis
    by (simp add: integer_digits_def unsigned_Number_toString takeWhile_tail)
qed

lemma fraction_digits_Number_toString:
  "fraction_digits (Number_toString v) = fraction (hundredths v mod 100)"
proof -
  have "\<forall>c\<in>set (digits (hundredths v div 100)). c \<noteq> CHR ''.''"
    using all_digits_not_sep [OF digits_is_digit] by blast
  then show ?thesis
    by (simp add: fraction_digits_def unsigned_Number_toString dropWhile_append3
        fraction_def)
qed

lemma decimal_numeral_Number_toString: "decimal_numeral (Number_toString v)"
  by (simp add: decimal_numeral_def integer_digits_Number_toString
      fraction_digits_Number_toString unsigned_Number_toString digits_nonempty digits_is_digit
      fraction_is_digit fraction_empty)

lemma shortest2_Number_toString: "shortest2 (Number_toString v)"
proof -
  have "hundredths v mod 100 < 100" by simp
  then show ?thesis
    using fraction_last [of "hundredths v mod 100"]
    by (auto simp: shortest2_def decimal_numeral_Number_toString fraction_digits_Number_toString
        fraction_length fraction_empty)
qed

lemma hundredths_exact:
  assumes "fixed_range v"
  shows "real (hundredths v) = \<bar>v\<bar> * 100"
proof -
  from assms have i: "of_int \<lfloor>v * 100\<rfloor> = v * 100" by (simp add: fixed_range_def)
  have "\<bar>v\<bar> * 100 = \<bar>v * 100\<bar>" by (simp add: abs_mult)
  also have "\<dots> = \<bar>of_int \<lfloor>v * 100\<rfloor>\<bar>" by (simp add: i)
  also have "\<dots> = of_int \<bar>\<lfloor>v * 100\<rfloor>\<bar>" by simp
  finally have e: "\<bar>v\<bar> * 100 = of_int \<bar>\<lfloor>v * 100\<rfloor>\<bar>" .
  have "\<lfloor>\<bar>v\<bar> * 100\<rfloor> = \<lfloor>(of_int \<bar>\<lfloor>v * 100\<rfloor>\<bar> :: real)\<rfloor>"
    by (simp only: e)
  also have "\<dots> = \<bar>\<lfloor>v * 100\<rfloor>\<bar>"
    by (simp only: floor_of_int)
  finally have "int (hundredths v) = \<bar>\<lfloor>v * 100\<rfloor>\<bar>"
    by (simp add: hundredths_def)
  then have "real (hundredths v) = of_int \<bar>\<lfloor>v * 100\<rfloor>\<bar>"
    by (metis of_int_of_nat_eq)
  with e show ?thesis by simp
qed

lemma decimal_value_Number_toString:
  assumes "fixed_range v"
  shows "decimal_value (Number_toString v) = v"
proof -
  let ?h = "hundredths v"
  have m: "?h mod 100 < 100" by simp
  have "?h = 100 * (?h div 100) + ?h mod 100" by simp
  then have s: "real ?h = 100 * real (?h div 100) + real (?h mod 100)"
    by (metis of_nat_add of_nat_mult of_nat_numeral)
  have "real (?h div 100) + real (?h mod 100) / 100 = real ?h / 100"
    using s by simp
  also have "\<dots> = \<bar>v\<bar>" using hundredths_exact [OF assms] by simp
  finally have mag: "real (?h div 100) + real (?h mod 100) / 100 = \<bar>v\<bar>" .
  have "decimal_value (Number_toString v) =
      (if v < 0 then - 1 else 1) * (real (?h div 100) + real (?h mod 100) / 100)"
    unfolding decimal_value_def take1_Number_toString integer_digits_Number_toString
        fraction_digits_Number_toString digits_value_digits fraction_value [OF m] ..
  with mag show ?thesis by simp
qed

lemma Number_toString_no_sep:
  "CHR '','' \<notin> set (Number_toString v) \<and> CHR 0x0A \<notin> set (Number_toString v)"
proof -
  have a: "CHR '','' \<notin> set (digits n) \<and> CHR 0x0A \<notin> set (digits n)" for n
    using all_digits_not_sep [OF digits_is_digit] by blast
  have b: "CHR '','' \<notin> set (fraction f) \<and> CHR 0x0A \<notin> set (fraction f)" if "f < 100" for f
    using all_digits_not_sep [OF fraction_is_digit [OF that]] by blast
  have m: "hundredths v mod 100 < 100" by simp
  show ?thesis using a b [OF m] by (simp add: Number_toString_def)
qed

lemma row_no_newline: "CHR 0x0A \<notin> set (row d)"
  using Number_toString_no_sep by (simp add: row_def)

lemma split_row:
  "split_on (CHR '','') (row d)
     = [Number_toString (time d), Number_toString (x d), Number_toString (y d)]"
  using Number_toString_no_sep
  by (simp add: row_def split_on_append split_on_none)

lemma read_csv_csv:
  "read_csv (csv ds) =
     [''time'', ''x'', ''y'']
     # map (\<lambda>d. [Number_toString (time d), Number_toString (x d), Number_toString (y d)]) ds"
proof -
  have "split_on (CHR 0x0A) (csv ds) = ''time,x,y'' # map row ds"
    unfolding csv_def
    by (rule split_on_join) (auto simp: row_no_newline)
  then show ?thesis
    by (simp add: read_csv_def split_row)
qed

text \<open>The values of the samples in every state the events lead to.\<close>

lemma fixed_range_of_int: "\<bar>real_of_int k / 100\<bar> < 10 ^ 13 \<Longrightarrow> fixed_range (of_int k / 100)"
  by (simp add: fixed_range_def)

lemma fixed_range_Math_round: "\<bar>Math_round v\<bar> < 10 ^ 13 \<Longrightarrow> fixed_range (Math_round v)"
proof -
  assume b: "\<bar>Math_round v\<bar> < 10 ^ 13"
  have "Math_round v * 100 = of_int (\<lfloor>v + 1 / 2\<rfloor> * 100)"
    by (simp add: Math_round_def)
  then have "of_int \<lfloor>Math_round v * 100\<rfloor> = Math_round v * 100"
    by (simp only: floor_of_int)
  with b show ?thesis by (simp add: fixed_range_def)
qed

lemma fixed_range_parseFloat_toFixed2:
  assumes b: "\<bar>parseFloat_toFixed2 v\<bar> < 10 ^ 13"
  shows "fixed_range (parseFloat_toFixed2 v)"
proof (cases "10 ^ 21 \<le> \<bar>v\<bar>")
  case True
  with b show ?thesis by (simp add: parseFloat_toFixed2_def)
next
  case False
  define k where "k = (if v < 0 then - 1 else if v = 0 then 0 else 1) * \<lfloor>\<bar>v\<bar> * 100 + 1 / 2\<rfloor>"
  have e: "parseFloat_toFixed2 v = of_int k / 100"
    using False by (simp add: parseFloat_toFixed2_def k_def sgn_real_def)
  from b have "\<bar>real_of_int k / 100\<bar> < 10 ^ 13"
    by (simp only: e)
  then have "fixed_range (of_int k / 100)"
    by (rule fixed_range_of_int)
  then show ?thesis
    by (simp only: e)
qed

lemma stored_sample:
  "stored \<lparr>time = Math_round a, x = parseFloat_toFixed2 b, y = parseFloat_toFixed2 c\<rparr>"
  by (simp add: stored_def fixed_range_Math_round fixed_range_parseFloat_toFixed2)

lemma stored_step: "list_all stored (data s) \<Longrightarrow> list_all stored (data (step e s))"
  by (cases e)
     (auto simp: imageLoaded_def updateCanvasSize_def handleKeyDown_def downloadCSV_def
        handleMouseMove_def countdownElapsed_def samplerTick_def Let_def stored_sample
        split: option.splits if_splits prod.splits)

lemma stored_run: "list_all stored (data s) \<Longrightarrow> list_all stored (data (run es s))"
  by (induction es arbitrary: s) (simp_all add: stored_step)

lemma stored_reachable: "list_all stored (data (run es init))"
  by (rule stored_run) (simp add: init_def)

text \<open>The session of the examples, run from the initial state.\<close>

lemma scenario_run:
  "run scenario init =
     \<lparr> image = Some (800, 600), maxX = 10, maxY = 10, recording = True,
       data = [\<lparr>time = 17, x = 5, y = 5\<rparr>, \<lparr>time = 33, x = 5 / 4, y = 5 / 2\<rparr>],
       startTime = Some 1000, elapsedTime = 34 / 1000, waiting = False, canvasScale = 1,
       lastPointRef = Some (100, 450), mousePositionRef = Some (100, 450), timers = 0,
       saved = [] \<rparr>"
  by (simp add: scenario_def handler_defs)

lemma run_append: "run (es @ fs) s = run fs (run es s)"
  by (induction es arbitrary: s) simp_all

subsection \<open>The coordinate mapper\<close>

text \<open>
  C1.  For every raw offset and every pair of scale factors the mapper returns
  \<open>(rawX * scaleX, (surfaceHeight - rawY) * scaleY)\<close>.  It is a function of its arguments
  alone and has a value for every argument: a scale factor of zero gives the coordinate
  zero, and negating both scale factors negates both coordinates.
\<close>

theorem coordinateMapper_contract:
  "coordinateMapper sx sy hgt rawX rawY = (rawX * sx, (hgt - rawY) * sy)
   \<and> fst (coordinateMapper 0 sy hgt rawX rawY) = 0
   \<and> snd (coordinateMapper sx 0 hgt rawX rawY) = 0
   \<and> coordinateMapper (- sx) (- sy) hgt rawX rawY
       = (- fst (coordinateMapper sx sy hgt rawX rawY),
          - snd (coordinateMapper sx sy hgt rawX rawY))"
  by (simp add: coordinateMapper_def)

text \<open>
  C2, as the code has it.  Take a surface between 1 and \<open>10^9\<close> pixels wide and high,
  bounds of magnitude \<open>10^9\<close> at most, and scale factors that are the bounds divided by the
  width and the height.  The bottom-left corner (raw offset 0 and the surface height) is
  mapped to \<open>(0, 0)\<close>, and the top-right corner (raw offset the surface width and 0) is
  mapped, and stored after the rounding to two decimals, within one hundredth of
  \<open>(maxX, maxY)\<close>: the vertical axis is flipped, so the bottom edge is 0 and the top edge
  is \<open>maxY\<close>.  The same holds when the width and the height, the two quotients, the two
  products and the two stored values are each replaced by a value that rounds it as a
  double does.
\<close>

theorem corner_mapping:
  assumes i: "image s = Some (w, h)"
    and W: "1 \<le> w * canvasScale s" "w * canvasScale s \<le> 10 ^ 9"
    and H: "1 \<le> h * canvasScale s" "h * canvasScale s \<le> 10 ^ 9"
    and m: "\<bar>maxX s\<bar> \<le> 10 ^ 9" "\<bar>maxY s\<bar> \<le> 10 ^ 9"
  shows "coordinateMapper (scaleX s) (scaleY s) (h * canvasScale s) 0 (h * canvasScale s) = (0, 0)
    \<and> approx (parseFloat_toFixed2 (fst (coordinateMapper (scaleX s) (scaleY s)
          (h * canvasScale s) (w * canvasScale s) 0))) (maxX s)
    \<and> approx (parseFloat_toFixed2 (snd (coordinateMapper (scaleX s) (scaleY s)
          (h * canvasScale s) (w * canvasScale s) 0))) (maxY s)
    \<and> (\<forall>W' H' sx sy px py qx qy.
          rounds W' (w * canvasScale s) \<and> rounds H' (h * canvasScale s) \<and>
          rounds sx (maxX s / W') \<and> rounds sy (maxY s / H') \<and>
          rounds px (fst (coordinateMapper sx sy H' W' 0)) \<and>
          rounds py (snd (coordinateMapper sx sy H' W' 0)) \<and>
          rounds qx (parseFloat_toFixed2 px) \<and> rounds qy (parseFloat_toFixed2 py) \<longrightarrow>
          coordinateMapper sx sy H' 0 H' = (0, 0) \<and>
          approx px (maxX s) \<and> approx py (maxY s) \<and>
          approx qx (maxX s) \<and> approx qy (maxY s))"
proof -
  let ?W = "w * canvasScale s" and ?H = "h * canvasScale s"
  have r: "approx px (maxX s) \<and> approx py (maxY s) \<and> approx qx (maxX s) \<and> approx qy (maxY s)"
    if "rounds W' ?W" "rounds H' ?H" "rounds sx (maxX s / W')" "rounds sy (maxY s / H')"
      "rounds px (fst (coordinateMapper sx sy H' W' 0))"
      "rounds py (snd (coordinateMapper sx sy H' W' 0))"
      "rounds qx (parseFloat_toFixed2 px)" "rounds qy (parseFloat_toFixed2 py)"
    for W' H' sx sy px py qx qy
  proof -
    have "0 < W'" using rounds_positive [OF that(1) W(1)] .
    moreover have "rounds px (W' * sx)"
      using that(5) by (simp add: coordinateMapper_def mult.commute)
    ultimately have x: "approx px (maxX s)" "approx qx (maxX s)"
      using m(1) that(3) that(7) by (auto intro: corner_rounding)
    have "0 < H'" using rounds_positive [OF that(2) H(1)] .
    moreover have "rounds py (H' * sy)"
      using that(6) by (simp add: coordinateMapper_def)
    ultimately have y: "approx py (maxY s)" "approx qy (maxY s)"
      using m(2) that(4) that(8) by (auto intro: corner_rounding)
    from x y show ?thesis by simp
  qed
  have e: "scaleX s = maxX s / ?W" "scaleY s = maxY s / ?H"
    using i by (simp_all add: scaleX_def scaleY_def)
  have z: "coordinateMapper sx sy H' 0 H' = (0, 0)" for sx sy H'
    by (simp add: coordinateMapper_def)
  from r [of ?W ?H "scaleX s" "scaleY s"
      "fst (coordinateMapper (scaleX s) (scaleY s) ?H ?W 0)"
      "snd (coordinateMapper (scaleX s) (scaleY s) ?H ?W 0)"
      "parseFloat_toFixed2 (fst (coordinateMapper (scaleX s) (scaleY s) ?H ?W 0))"
      "parseFloat_toFixed2 (snd (coordinateMapper (scaleX s) (scaleY s) ?H ?W 0))"]
  have "approx (parseFloat_toFixed2 (fst (coordinateMapper (scaleX s) (scaleY s) ?H ?W 0))) (maxX s)
    \<and> approx (parseFloat_toFixed2 (snd (coordinateMapper (scaleX s) (scaleY s) ?H ?W 0))) (maxY s)"
    by (simp add: rounds_refl e)
  with r z show ?thesis by blast
qed

text \<open>
  The witness: the surface of 800 by 600 pixels with the bounds 10 and 10, exactly and with
  a quotient that is off by the relative error \<open>2^-53\<close>.
\<close>

theorem corner_mapping_witness:
  "image (run [ImageLoad 800 600 1000 1000, SetMaxX 10, SetMaxY 10] init) = Some (800, 600)
   \<and> canvasScale (run [ImageLoad 800 600 1000 1000, SetMaxX 10, SetMaxY 10] init) = 1
   \<and> maxX (run [ImageLoad 800 600 1000 1000, SetMaxX 10, SetMaxY 10] init) = 10
   \<and> maxY (run [ImageLoad 800 600 1000 1000, SetMaxX 10, SetMaxY 10] init) = 10
   \<and> coordinateMapper
        (scaleX (run [ImageLoad 800 600 1000 1000, SetMaxX 10, SetMaxY 10] init))
        (scaleY (run [ImageLoad 800 600 1000 1000, SetMaxX 10, SetMaxY 10] init))
        600 0 600 = (0, 0)
   \<and> approx (parseFloat_toFixed2 (fst (coordinateMapper
        (scaleX (run [ImageLoad 800 600 1000 1000, SetMaxX 10, SetMaxY 10] init))
        (scaleY (run [ImageLoad 800 600 1000 1000, SetMaxX 10, SetMaxY 10] init))
        600 800 0))) 10
   \<and> rounds (1 / 80 + 1 / (80 * 2 ^ 53)) (10 / 800)
   \<and> rounds (10 + 10 / 2 ^ 53) (fst (coordinateMapper (1 / 80 + 1 / (80 * 2 ^ 53)) (1 / 60) 600 800 0))
   \<and> rounds 10 (parseFloat_toFixed2 (10 + 10 / 2 ^ 53))
   \<and> approx (10 + 10 / 2 ^ 53) 10
   \<and> approx 10 10"
proof -
  let ?s = "run [ImageLoad 800 600 1000 1000, SetMaxX 10, SetMaxY 10] init"
  have i: "image ?s = Some (800, 600)" and c: "canvasScale ?s = 1"
    and mx: "maxX ?s = 10" and my: "maxY ?s = 10"
    by (simp_all add: imageLoaded_def updateCanvasSize_def init_def)
  have t: "parseFloat_toFixed2 (10 + 10 / 2 ^ 53) = 10"
    by (simp add: parseFloat_toFixed2_def)
  have r1: "rounds (1 / 80 + 1 / (80 * 2 ^ 53)) (10 / 800)"
    by (simp add: rounds_def)
  have r2: "rounds (10 + 10 / 2 ^ 53)
      (fst (coordinateMapper (1 / 80 + 1 / (80 * 2 ^ 53)) (1 / 60) 600 800 0))"
    by (simp add: rounds_def coordinateMapper_def)
  have r3: "rounds 10 (snd (coordinateMapper (1 / 80 + 1 / (80 * 2 ^ 53)) (1 / 60) 600 800 0))"
    by (simp add: rounds_def coordinateMapper_def)
  have r4: "rounds 10 (parseFloat_toFixed2 (10 + 10 / 2 ^ 53))"
    by (simp only: t rounds_refl)
  have r5: "rounds 10 (parseFloat_toFixed2 10)"
    by (simp add: parseFloat_toFixed2_def rounds_def)
  have r6: "rounds 800 (800 * canvasScale ?s)" "rounds 600 (600 * canvasScale ?s)"
    "rounds (1 / 60) (maxY ?s / 600)"
    unfolding c my by (simp_all add: rounds_def)
  from r1 have r1': "rounds (1 / 80 + 1 / (80 * 2 ^ 53)) (maxX ?s / 800)"
    by (simp only: mx)
  have b: "1 \<le> 800 * canvasScale ?s" "800 * canvasScale ?s \<le> 10 ^ 9"
    "1 \<le> 600 * canvasScale ?s" "600 * canvasScale ?s \<le> 10 ^ 9"
    "\<bar>maxX ?s\<bar> \<le> 10 ^ 9" "\<bar>maxY ?s\<bar> \<le> 10 ^ 9"
    unfolding c mx my by simp_all
  note th = corner_mapping [OF i b]
  from th have 1: "coordinateMapper (scaleX ?s) (scaleY ?s) 600 0 600 = (0, 0)"
    and 2: "approx (parseFloat_toFixed2 (fst (coordinateMapper (scaleX ?s) (scaleY ?s)
          600 800 0))) 10"
    unfolding c mx by simp_all
  from th r6 r1' r2 r3 r4 r5
  have 3: "approx (10 + 10 / 2 ^ 53) (maxX ?s) \<and> approx 10 (maxX ?s)"
    by blast
  from i c mx my 1 2 r1 r2 r4 3 show ?thesis
    by (simp only: mx)
qed

text \<open>
  C2 as the specification states it fails.  On a surface of 800 by 600 pixels with bounds 10 and
  10 the bottom-left corner is mapped to \<open>(0, 0)\<close>, which is not close to \<open>(0, maxY)\<close>, and
  the top-right corner to \<open>(10, 10)\<close>, which is not close to \<open>(maxX, 0)\<close>.
\<close>

theorem corner_mapping_counterexample:
  "coordinateMapper (10 / 800) (10 / 600) 600 0 600 = (0, 0)
   \<and> \<not> approx (snd (coordinateMapper (10 / 800) (10 / 600) 600 0 600)) 10
   \<and> coordinateMapper (10 / 800) (10 / 600) 600 800 0 = (10, 10)
   \<and> \<not> approx (snd (coordinateMapper (10 / 800) (10 / 600) 600 800 0)) 0"
  by (simp add: coordinateMapper_def approx_def)

subsection \<open>The recording life cycle\<close>

text \<open>
  C3.  In every state that the events lead to from the initial state, if the phase is
  \<open>CountingDown\<close> then the space key changes nothing: the state, with its flags, its
  samples and its registered timeouts, stays as it is, exactly one timeout is registered,
  and no event at all leads from there to \<open>Idle\<close>.
\<close>

theorem toggle_ignored_while_counting_down:
  "phase_of (run es init) = CountingDown \<Longrightarrow>
     step (KeyDown ''Space'') (run es init) = run es init
     \<and> timers (run es init) = 1
     \<and> (\<forall>e. phase_of (step e (run es init)) \<noteq> Idle)"
proof -
  assume cd: "phase_of (run es init) = CountingDown"
  let ?s = "run es init"
  have w: "waiting ?s" and r: "\<not> recording ?s"
    using cd by (simp_all add: CountingDown_iff)
  have "lifecycle ?s" by (rule lifecycle_reachable)
  with w have t: "timers ?s = 1" by (simp add: lifecycle_def)
  have k: "step (KeyDown ''Space'') ?s = ?s"
    using w r by (simp add: handleKeyDown_def)
  have "phase_of (step e ?s) \<noteq> Idle" for e
    using step_keeps_waiting [OF w r, of e] by (auto simp: phase_of_def)
  with t k show ?thesis by blast
qed

theorem toggle_ignored_while_counting_down_witness:
  "phase_of (run [KeyDown ''Space''] init) = CountingDown
   \<and> step (KeyDown ''Space'') (run [KeyDown ''Space''] init) = run [KeyDown ''Space''] init
   \<and> timers (run [KeyDown ''Space''] init) = 1
   \<and> (\<forall>e. phase_of (step e (run [KeyDown ''Space''] init)) \<noteq> Idle)"
proof -
  have h: "phase_of (run [KeyDown ''Space''] init) = CountingDown"
    by (simp add: phase_of_def handleKeyDown_def init_def)
  from toggle_ignored_while_counting_down [OF h] h show ?thesis by blast
qed

text \<open>
  C9.  In every state that the events lead to from the initial state: the space key during
  \<open>Recording\<close> leads to \<open>Idle\<close>, leaves the samples as they are and saves what
  \<open>downloadCSV\<close> saves; an event after which the samples are not the old ones with
  something appended is the countdown elapsing in \<open>CountingDown\<close>, which leads to
  \<open>Recording\<close>; and that event empties the samples, resets the last point and stores its
  clock reading as the start time.
\<close>

theorem stop_keeps_sequence:
  "(phase_of (run es init) = Recording \<longrightarrow>
      data (step (KeyDown ''Space'') (run es init)) = data (run es init)
      \<and> phase_of (step (KeyDown ''Space'') (run es init)) = Idle
      \<and> saved (step (KeyDown ''Space'') (run es init)) =
          saved (downloadCSV (run es init)))
   \<and> ((\<nexists>ps. data (step e (run es init)) = data (run es init) @ ps) \<longrightarrow>
        phase_of (run es init) = CountingDown \<and> (\<exists>now. e = TimerElapsed now)
        \<and> phase_of (step e (run es init)) = Recording)
   \<and> (phase_of (run es init) = CountingDown \<longrightarrow>
        data (step (TimerElapsed now) (run es init)) = []
        \<and> lastPointRef (step (TimerElapsed now) (run es init)) = None
        \<and> startTime (step (TimerElapsed now) (run es init)) = Some now
        \<and> phase_of (step (TimerElapsed now) (run es init)) = Recording)"
proof -
  let ?s = "run es init"
  have lc: "lifecycle ?s" by (rule lifecycle_reachable)
  have a: "data (step (KeyDown ''Space'') ?s) = data ?s
      \<and> phase_of (step (KeyDown ''Space'') ?s) = Idle
      \<and> saved (step (KeyDown ''Space'') ?s) = saved (downloadCSV ?s)"
    if "phase_of ?s = Recording"
  proof -
    from that have r: "recording ?s" by (simp add: phase_of_def split: if_splits)
    with lc have w: "\<not> waiting ?s" by (auto simp: lifecycle_def)
    from r w show ?thesis
      by (simp add: handleKeyDown_def downloadCSV_def phase_of_def)
  qed
  have b: "phase_of ?s = CountingDown \<and> (\<exists>now. e = TimerElapsed now)
        \<and> phase_of (step e ?s) = Recording"
    if "\<nexists>ps. data (step e ?s) = data ?s @ ps"
  proof -
    from that step_data [of e ?s] obtain now where t: "0 < timers ?s" and e: "e = TimerElapsed now"
      by blast
    from t lc have "waiting ?s" "\<not> recording ?s"
      by (auto simp: lifecycle_def split: if_splits)
    with t e show ?thesis
      by (simp add: phase_of_def countdownElapsed_def)
  qed
  have c: "data (step (TimerElapsed now) ?s) = []
        \<and> lastPointRef (step (TimerElapsed now) ?s) = None
        \<and> startTime (step (TimerElapsed now) ?s) = Some now
        \<and> phase_of (step (TimerElapsed now) ?s) = Recording"
    if "phase_of ?s = CountingDown"
  proof -
    from that have "waiting ?s" by (simp add: CountingDown_iff)
    with lc have "0 < timers ?s" by (simp add: lifecycle_def)
    then show ?thesis by (simp add: countdownElapsed_def phase_of_def)
  qed
  from a b c show ?thesis by blast
qed

text \<open>
  The witness: the session of the examples is in \<open>Recording\<close> with two samples, which the
  space key keeps and saves; two more presses later the phase is \<open>CountingDown\<close>, still
  with the two samples, and the countdown elapsing at clock 5000 empties them.
\<close>

theorem stop_keeps_sequence_witness:
  "phase_of (run scenario init) = Recording
   \<and> data (step (KeyDown ''Space'') (run scenario init))
       = [\<lparr>time = 17, x = 5, y = 5\<rparr>, \<lparr>time = 33, x = 5 / 4, y = 5 / 2\<rparr>]
   \<and> phase_of (step (KeyDown ''Space'') (run scenario init)) = Idle
   \<and> length (saved (step (KeyDown ''Space'') (run scenario init))) = 1
   \<and> phase_of (run (scenario @ [KeyDown ''Space'', KeyDown ''Space'']) init) = CountingDown
   \<and> data (run (scenario @ [KeyDown ''Space'', KeyDown ''Space'']) init)
       = [\<lparr>time = 17, x = 5, y = 5\<rparr>, \<lparr>time = 33, x = 5 / 4, y = 5 / 2\<rparr>]
   \<and> data (step (TimerElapsed 5000)
        (run (scenario @ [KeyDown ''Space'', KeyDown ''Space'']) init)) = []
   \<and> startTime (step (TimerElapsed 5000)
        (run (scenario @ [KeyDown ''Space'', KeyDown ''Space'']) init)) = Some 5000
   \<and> phase_of (step (TimerElapsed 5000)
        (run (scenario @ [KeyDown ''Space'', KeyDown ''Space'']) init)) = Recording"
proof -
  let ?es = "scenario @ [KeyDown ''Space'', KeyDown ''Space'']"
  have r: "phase_of (run scenario init) = Recording"
    by (simp add: scenario_run phase_of_def)
  have d: "data (run scenario init)
      = [\<lparr>time = 17, x = 5, y = 5\<rparr>, \<lparr>time = 33, x = 5 / 4, y = 5 / 2\<rparr>]"
    by (simp add: scenario_run)
  have l: "length (saved (downloadCSV (run scenario init))) = 1"
    by (simp add: scenario_run downloadCSV_def)
  have e: "run ?es init = run [KeyDown ''Space'', KeyDown ''Space''] (run scenario init)"
    by (simp add: run_append)
  have c: "phase_of (run ?es init) = CountingDown"
    unfolding e by (simp add: scenario_run phase_of_def handleKeyDown_def downloadCSV_def)
  have d': "data (run ?es init)
      = [\<lparr>time = 17, x = 5, y = 5\<rparr>, \<lparr>time = 33, x = 5 / 4, y = 5 / 2\<rparr>]"
    unfolding e by (simp add: scenario_run handleKeyDown_def downloadCSV_def)
  have n: "\<nexists>ps. data (step (TimerElapsed 5000) (run ?es init)) = data (run ?es init) @ ps"
    unfolding e by (simp add: scenario_run handleKeyDown_def downloadCSV_def countdownElapsed_def)
  from stop_keeps_sequence [of scenario "TimerElapsed 5000" 5000] r d l
    stop_keeps_sequence [of ?es "TimerElapsed 5000" 5000] c d' n
  show ?thesis by simp
qed

subsection \<open>The sampler\<close>

text \<open>
  C4 does not hold of the code: on a tick with no pointer position stored yet the callback
  returns at line 108, before the elapsed time is set at line 140, so the tick changes
  nothing at all.
\<close>

lemma null_pointer_tick_is_skip:
  "samplerInterval s = Some t0 \<Longrightarrow> mousePositionRef s = None \<Longrightarrow>
     step (Tick rect now1 now2) s = s"
  by (simp add: samplerTick_def)

text \<open>
  C4 at a concrete input.  A recording starts at clock 1000 and a tick reads the clock at
  1017.  With no pointer position stored, the tick produces no sample and leaves the
  elapsed time at 0, where the specification has 0.017 seconds.  With a pointer position stored
  that lies outside the surface, the same tick produces no sample either and does set the
  elapsed time to 0.017 seconds.
\<close>

theorem tick_without_pointer_keeps_elapsed_time:
  "samplerInterval (run [KeyDown ''Space'', TimerElapsed 1000] init) = Some 1000
   \<and> mousePositionRef (run [KeyDown ''Space'', TimerElapsed 1000] init) = None
   \<and> data (run [KeyDown ''Space'', TimerElapsed 1000, Tick surface 1016 1017] init) = []
   \<and> elapsedTime (run [KeyDown ''Space'', TimerElapsed 1000, Tick surface 1016 1017] init) = 0
   \<and> data (run [MouseMove 900 700, KeyDown ''Space'', TimerElapsed 1000,
        Tick surface 1016 1017] init) = []
   \<and> elapsedTime (run [MouseMove 900 700, KeyDown ''Space'', TimerElapsed 1000,
        Tick surface 1016 1017] init) = 17 / 1000"
  by (simp add: handler_defs)

text \<open>
  C5.  On a tick of the registered interval with a pointer position stored that fails the
  containment test, the state changes in the elapsed time alone, which becomes
  \<open>(now2 - t0) / 1000\<close> for the start time \<open>t0\<close>: no sample is appended and the last
  accepted offset stays.
\<close>

theorem tick_outside_rectangle:
  "samplerInterval s = Some t0 \<Longrightarrow> mousePositionRef s = Some p \<Longrightarrow> \<not> inside rect p \<Longrightarrow>
     step (Tick rect now1 now2) s = s\<lparr>elapsedTime := (now2 - t0) / 1000\<rparr>
     \<and> data (step (Tick rect now1 now2) s) = data s
     \<and> lastPointRef (step (Tick rect now1 now2) s) = lastPointRef s
     \<and> elapsedTime (step (Tick rect now1 now2) s) = (now2 - t0) / 1000
     \<and> startTime s = Some t0"
  by (cases p)
     (auto simp: samplerTick_def inside_def samplerInterval_def split: if_splits option.splits)

text \<open>
  The witness: in the session of the examples the pointer is at (100, 450); a surface that
  begins at 500 from the left does not contain it.
\<close>

theorem tick_outside_rectangle_witness:
  "samplerInterval (run scenario init) = Some 1000
   \<and> mousePositionRef (run scenario init) = Some (100, 450)
   \<and> \<not> inside (surface\<lparr>rect_left := 500, rect_right := 1300\<rparr>) (100, 450)
   \<and> data (step (Tick (surface\<lparr>rect_left := 500, rect_right := 1300\<rparr>) 2000 2001)
        (run scenario init)) = data (run scenario init)
   \<and> lastPointRef (step (Tick (surface\<lparr>rect_left := 500, rect_right := 1300\<rparr>) 2000 2001)
        (run scenario init)) = Some (100, 450)
   \<and> elapsedTime (step (Tick (surface\<lparr>rect_left := 500, rect_right := 1300\<rparr>) 2000 2001)
        (run scenario init)) = 1001 / 1000"
proof -
  let ?r = "surface\<lparr>rect_left := 500, rect_right := 1300\<rparr>"
  have a: "samplerInterval (run scenario init) = Some 1000"
    by (simp add: scenario_run samplerInterval_def)
  have m: "mousePositionRef (run scenario init) = Some (100, 450)"
    by (simp add: scenario_run)
  have l: "lastPointRef (run scenario init) = Some (100, 450)"
    by (simp add: scenario_run)
  have o: "\<not> inside ?r (100, 450)"
    by (simp add: inside_def surface_def)
  from tick_outside_rectangle [OF a m o, of 2000 2001] a m l o show ?thesis by simp
qed

text \<open>
  C10.  On a tick of the registered interval with the stored pointer position on an edge
  of the rectangle, a sample is appended: its time is the rounded clock reading since the
  start, and its coordinates are those of the mapper at the raw offset, rounded to two
  decimals.
\<close>

theorem tick_on_edge_samples:
  "samplerInterval s = Some t0 \<Longrightarrow> mousePositionRef s = Some p \<Longrightarrow> on_edge rect p \<Longrightarrow>
     data (step (Tick rect now1 now2) s) =
       data s @ [\<lparr>time = Math_round (now1 - t0),
                  x = parseFloat_toFixed2 ((fst p - rect_left rect) * scaleX s),
                  y = parseFloat_toFixed2
                        ((rect_height rect - (snd p - rect_top rect)) * scaleY s)\<rparr>]"
  by (cases p) (simp add: samplerTick_def on_edge_def inside_def coordinateMapper_def Let_def)

text \<open>
  The witness: the pointer of the session of the examples, at (100, 450), is on the left
  edge of a surface that begins at 100 and on the bottom edge of one that ends at 450.
\<close>

theorem tick_on_edge_samples_witness:
  "on_edge (surface\<lparr>rect_left := 100, rect_right := 900\<rparr>) (100, 450)
   \<and> data (step (Tick (surface\<lparr>rect_left := 100, rect_right := 900\<rparr>) 1050 1051)
        (run scenario init))
       = data (run scenario init) @ [\<lparr>time = 50, x = 0, y = 5 / 2\<rparr>]
   \<and> on_edge (surface\<lparr>rect_top := - 150, rect_bottom := 450\<rparr>) (100, 450)
   \<and> data (step (Tick (surface\<lparr>rect_top := - 150, rect_bottom := 450\<rparr>) 1050 1051)
        (run scenario init))
       = data (run scenario init) @ [\<lparr>time = 50, x = 5 / 4, y = 0\<rparr>]"
proof -
  let ?r = "surface\<lparr>rect_left := 100, rect_right := 900\<rparr>"
  let ?q = "surface\<lparr>rect_top := - 150, rect_bottom := 450\<rparr>"
  have a: "samplerInterval (run scenario init) = Some 1000"
    by (simp add: scenario_run samplerInterval_def)
  have m: "mousePositionRef (run scenario init) = Some (100, 450)"
    by (simp add: scenario_run)
  have o: "on_edge ?r (100, 450)" and o': "on_edge ?q (100, 450)"
    by (simp_all add: on_edge_def inside_def surface_def)
  have v: "scaleX (run scenario init) = 1 / 80" "scaleY (run scenario init) = 1 / 60"
    by (simp_all add: scenario_run scaleX_def scaleY_def)
  have t: "Math_round (1050 - 1000) = 50"
    by (simp add: Math_round_def)
  have f: "parseFloat_toFixed2 0 = 0" "parseFloat_toFixed2 (5 / 2) = 5 / 2"
    "parseFloat_toFixed2 (5 / 4) = 5 / 4"
    by (simp_all add: parseFloat_toFixed2_def)
  from tick_on_edge_samples [OF a m o, of 1050 1051]
    tick_on_edge_samples [OF a m o', of 1050 1051] o o' v t f
  show ?thesis by (simp add: surface_def)
qed

text \<open>
  C8.  Let the readings of the clock never decrease along the events.  Then, in the state
  the events lead to from the initial state, the times of the samples are in
  non-decreasing order, each is an integer and not negative, and there are at most as many
  samples as ticks of the sampler since the recording started.
\<close>

theorem sample_times_ordered:
  "readings_mono c es \<Longrightarrow>
     sorted (map time (data (run es init)))
     \<and> (\<forall>p\<in>set (data (run es init)). time p \<in> \<int> \<and> 0 \<le> time p)
     \<and> length (data (run es init)) \<le> session_ticks 0 es init"
  using session_inv_run [OF session_inv_init, of c es]
  by (auto simp: session_inv_def)

theorem sample_times_ordered_witness:
  "readings_mono 0 scenario
   \<and> map time (data (run scenario init)) = [17, 33]
   \<and> session_ticks 0 scenario init = 2
   \<and> sorted (map time (data (run scenario init)))
   \<and> list_all (\<lambda>p. time p \<in> \<int> \<and> 0 \<le> time p) (data (run scenario init))
   \<and> length (data (run scenario init)) \<le> session_ticks 0 scenario init"
proof -
  have m: "readings_mono 0 scenario"
    by (simp add: scenario_def)
  have d: "map time (data (run scenario init)) = [17, 33]"
    by (simp add: scenario_run)
  have n: "session_ticks 0 scenario init = 2"
    by (simp add: scenario_def handler_defs)
  from sample_times_ordered [OF m] m d n show ?thesis by (simp add: list_all_iff)
qed

subsection \<open>The export\<close>

text \<open>
  C7.  When the space key stops a recording whose sample sequence is empty, the state
  changes in the flag \<open>recording\<close> alone: \<open>downloadCSV\<close> returns without saving a file,
  and the handler has a result as for every other state.
\<close>

theorem export_of_empty_sequence:
  "recording s \<Longrightarrow> data s = [] \<Longrightarrow>
     step (KeyDown ''Space'') s = s\<lparr>recording := False\<rparr>
     \<and> saved (step (KeyDown ''Space'') s) = saved s
     \<and> downloadCSV s = s"
  by (simp add: handleKeyDown_def downloadCSV_def)

text \<open>
  The witness: a recording during which the pointer stays outside the surface has no
  sample when it is stopped, and no file is saved.
\<close>

theorem export_of_empty_sequence_witness:
  "recording (run [MouseMove 900 700, KeyDown ''Space'', TimerElapsed 1000,
      Tick surface 1016 1017] init)
   \<and> data (run [MouseMove 900 700, KeyDown ''Space'', TimerElapsed 1000,
      Tick surface 1016 1017] init) = []
   \<and> saved (run [MouseMove 900 700, KeyDown ''Space'', TimerElapsed 1000,
      Tick surface 1016 1017, KeyDown ''Space''] init) = []
   \<and> phase_of (run [MouseMove 900 700, KeyDown ''Space'', TimerElapsed 1000,
      Tick surface 1016 1017, KeyDown ''Space''] init) = Idle"
proof -
  let ?es = "[MouseMove 900 700, KeyDown ''Space'', TimerElapsed 1000, Tick surface 1016 1017]"
  have r: "recording (run ?es init)" and d: "data (run ?es init) = []"
    and s: "saved (run ?es init) = []" and w: "\<not> waiting (run ?es init)"
    by (simp_all add: handler_defs)
  have e: "run (?es @ [KeyDown ''Space'']) init = step (KeyDown ''Space'') (run ?es init)"
    by (simp only: run_append run.simps)
  from export_of_empty_sequence [OF r d] r d s w e show ?thesis
    by (simp add: phase_of_def)
qed

text \<open>
  C6, as the code has it.  Let the sample sequence be non-empty, and let every time and
  coordinate in it be of magnitude below \<open>10^13\<close> with at most two fractional digits, as the
  sampler stores them (up to there the digits that the conversion prints are those of the
  number).  Then \<open>downloadCSV\<close> saves one file, \<open>walk_trace.csv\<close>.  Read back
  line by line and cut at the commas, its text is the header \<open>time\<close>, \<open>x\<close>, \<open>y\<close> followed
  by one line of three fields for each sample, in the order of the samples.  Each field is
  the shortest decimal numeral of its number, the two-decimal number that the stored double
  is nearest to: digits with an optional minus sign and at most two fractional digits, the
  last of which is not 0, and no other character.  So a
  coordinate is written with two, one or no fractional digit (\<open>1.25\<close>, \<open>2.5\<close>, \<open>5\<close>), not
  always with two.
\<close>

theorem export_csv:
  "data s \<noteq> [] \<Longrightarrow>
   \<forall>d\<in>set (data s). fixed_range (time d) \<and> fixed_range (x d) \<and> fixed_range (y d) \<Longrightarrow>
     downloadCSV s = s\<lparr>saved := saved s @ [(''walk_trace.csv'', csv (data s))]\<rparr>
     \<and> read_csv (csv (data s)) =
         [''time'', ''x'', ''y'']
         # map (\<lambda>d. [Number_toString (time d), Number_toString (x d), Number_toString (y d)])
             (data s)
     \<and> (\<forall>d\<in>set (data s). \<forall>v\<in>{time d, x d, y d}.
           shortest2 (Number_toString v) \<and> decimal_value (Number_toString v) = v)"
proof -
  assume ne: "data s \<noteq> []"
    and fr: "\<forall>d\<in>set (data s). fixed_range (time d) \<and> fixed_range (x d) \<and> fixed_range (y d)"
  from ne have a: "downloadCSV s = s\<lparr>saved := saved s @ [(''walk_trace.csv'', csv (data s))]\<rparr>"
    by (simp add: downloadCSV_def)
  have "shortest2 (Number_toString v) \<and> decimal_value (Number_toString v) = v"
    if "d \<in> set (data s)" and "v \<in> {time d, x d, y d}" for d v
  proof -
    from that fr have "fixed_range v" by auto
    then show ?thesis
      by (simp add: shortest2_Number_toString decimal_value_Number_toString)
  qed
  with a read_csv_csv [of "data s"] show ?thesis by blast
qed

theorem export_csv_witness:
  "data (run scenario init) \<noteq> []
   \<and> list_all (\<lambda>d. fixed_range (time d) \<and> fixed_range (x d) \<and> fixed_range (y d))
        (data (run scenario init))
   \<and> saved (downloadCSV (run scenario init)) =
       [(''walk_trace.csv'',
         ''time,x,y'' @ [CHR 0x0A] @ ''17,5,5'' @ [CHR 0x0A] @ ''33,1.25,2.5'')]
   \<and> read_csv (csv (data (run scenario init))) =
       [[''time'', ''x'', ''y''], [''17'', ''5'', ''5''], [''33'', ''1.25'', ''2.5'']]
   \<and> shortest2 ''1.25'' \<and> decimal_value ''1.25'' = 5 / 4"
proof -
  let ?s = "run scenario init"
  have d: "data ?s = [\<lparr>time = 17, x = 5, y = 5\<rparr>, \<lparr>time = 33, x = 5 / 4, y = 5 / 2\<rparr>]"
    and sv: "saved ?s = []"
    by (simp_all add: scenario_run)
  have ne: "data ?s \<noteq> []"
    by (simp add: d)
  have fr: "\<forall>d\<in>set (data ?s). fixed_range (time d) \<and> fixed_range (x d) \<and> fixed_range (y d)"
    by (simp add: d fixed_range_def)
  have n: "Number_toString 17 = ''17''" "Number_toString 5 = ''5''"
    "Number_toString 33 = ''33''" "Number_toString (5 / 4) = ''1.25''"
    "Number_toString (5 / 2) = ''2.5''"
    by (simp_all add: Number_toString_def hundredths_def fraction_def digits.simps digit_def)
  have c: "csv (data ?s) = ''time,x,y'' @ [CHR 0x0A] @ ''17,5,5'' @ [CHR 0x0A] @ ''33,1.25,2.5''"
    by (simp add: d csv_def row_def n)
  from export_csv [OF ne fr] have
    1: "downloadCSV ?s = ?s\<lparr>saved := saved ?s @ [(''walk_trace.csv'', csv (data ?s))]\<rparr>"
    and 2: "read_csv (csv (data ?s)) =
         [''time'', ''x'', ''y'']
         # map (\<lambda>d. [Number_toString (time d), Number_toString (x d), Number_toString (y d)])
             (data ?s)"
    and 3: "\<forall>d\<in>set (data ?s). \<forall>v\<in>{time d, x d, y d}.
           shortest2 (Number_toString v) \<and> decimal_value (Number_toString v) = v"
    by blast+
  have s: "saved (downloadCSV ?s) =
      [(''walk_trace.csv'', ''time,x,y'' @ [CHR 0x0A] @ ''17,5,5'' @ [CHR 0x0A] @ ''33,1.25,2.5'')]"
    by (simp add: 1 sv c)
  have r: "read_csv (csv (data ?s)) =
      [[''time'', ''x'', ''y''], [''17'', ''5'', ''5''], [''33'', ''1.25'', ''2.5'']]"
    unfolding 2 by (simp add: d n)
  from 3 have "shortest2 (Number_toString (5 / 4)) \<and> decimal_value (Number_toString (5 / 4)) = 5 / 4"
    by (simp add: d)
  then have v: "shortest2 ''1.25'' \<and> decimal_value ''1.25'' = 5 / 4"
    by (simp only: n)
  from fr have fr': "list_all (\<lambda>d. fixed_range (time d) \<and> fixed_range (x d) \<and> fixed_range (y d))
      (data ?s)"
    by (simp add: list_all_iff)
  from ne fr' s r v show ?thesis by blast
qed

text \<open>
  C6 as the specification states it fails.  In the session of the examples the pointer at the
  centre of the surface gives the sample \<open>(5, 5)\<close>, and the file has the line \<open>17,5,5\<close> for
  it, where two fixed decimals would give \<open>17,5.00,5.00\<close>: not every line has its second
  and third field with two fractional digits.
\<close>

theorem export_csv_counterexample:
  "csv (data (run scenario init)) =
     ''time,x,y'' @ [CHR 0x0A] @ ''17,5,5'' @ [CHR 0x0A] @ ''33,1.25,2.5''
   \<and> \<not> (\<forall>r\<in>set (tl (read_csv (csv (data (run scenario init))))).
          fixed2 (r ! 1) \<and> fixed2 (r ! 2))"
proof -
  have n: "Number_toString 17 = ''17''" "Number_toString 5 = ''5''"
    "Number_toString 33 = ''33''" "Number_toString (5 / 4) = ''1.25''"
    "Number_toString (5 / 2) = ''2.5''"
    by (simp_all add: Number_toString_def hundredths_def fraction_def digits.simps digit_def)
  have c: "csv (data (run scenario init)) =
      ''time,x,y'' @ [CHR 0x0A] @ ''17,5,5'' @ [CHR 0x0A] @ ''33,1.25,2.5''"
    by (simp add: scenario_run csv_def row_def n)
  have r: "read_csv (csv (data (run scenario init))) =
      [[''time'', ''x'', ''y''], [''17'', ''5'', ''5''], [''33'', ''1.25'', ''2.5'']]"
    by (simp add: read_csv_csv scenario_run n)
  have "\<not> fixed2 ''5''"
    by (simp add: fixed2_def fraction_digits_def unsigned_def)
  with c r show ?thesis by simp
qed

end
